theory Spec2Isabelle
  imports Main "HOL-Library.Sublist"
begin

section \<open>JavaScript values that server.js builds\<close>

text \<open>
  The bodies passed to \<open>res.json\<close>. A JSON object is the list of its members in the order
  \<open>JSON.stringify\<close> writes them.
\<close>

datatype json =
    JString string
  | JNumber int
  | JArray "json list"
  | JObject "(string \<times> json) list"

text \<open>
  The template literals of server.js (\<open>`${Date.now()}-...`\<close>, \<open>`${processingTime}ms`\<close>)
  render an integral Number in decimal, with a leading minus sign when it is negative.
\<close>

definition digit_char :: "nat \<Rightarrow> char" where
  "digit_char d = ''0123456789'' ! (d mod 10)"

fun decimal :: "nat \<Rightarrow> string" where
  "decimal n = (if n < 10 then [digit_char n] else decimal (n div 10) @ [digit_char (n mod 10)])"

definition number_string :: "int \<Rightarrow> string" where
  "number_string i = (if i < 0 then CHR ''-'' # decimal (nat (- i)) else decimal (nat i))"

definition is_digit :: "char \<Rightarrow> bool" where
  "is_digit c = (c \<in> set ''0123456789'')"

definition decimal_value :: "string \<Rightarrow> nat" where
  "decimal_value s = foldl (\<lambda>n c. 10 * n + (of_char c - 48)) 0 s"

text \<open>
  A plain JavaScript object with string values, as the list of its own properties in
  creation order. A property key that is an array index (the canonical decimal form of an
  integer below \<open>2^32 - 1\<close>) is enumerated before every other key, in ascending numeric
  order; the other keys follow in creation order. Assigning to an existing key keeps its
  place; assigning a string to \<open>__proto__\<close> creates no property.
\<close>

type_synonym js_object = "(string \<times> string) list"

definition is_array_index :: "string \<Rightarrow> bool" where
  "is_array_index k =
     (k \<noteq> [] \<and> list_all is_digit k \<and> (if hd k = CHR ''0'' then k = ''0'' else True)
      \<and> decimal_value k < 2 ^ 32 - 1)"

definition js_put :: "string \<Rightarrow> string \<Rightarrow> js_object \<Rightarrow> js_object" where
  "js_put k v obj =
     (if k = ''__proto__'' then obj
      else if k \<in> fst ` set obj then map (\<lambda>(k', v'). if k' = k then (k', v) else (k', v')) obj
      else obj @ [(k, v)])"

definition own_entries :: "js_object \<Rightarrow> js_object" where
  "own_entries obj =
     sort_key (\<lambda>kv. decimal_value (fst kv)) (filter (\<lambda>kv. is_array_index (fst kv)) obj)
     @ filter (\<lambda>kv. \<not> is_array_index (fst kv)) obj"

definition json_of_object :: "js_object \<Rightarrow> json" where
  "json_of_object obj = JObject (map (\<lambda>(k, v). (k, JString v)) (own_entries obj))"

section \<open>The process environment and the uploads directory\<close>

text \<open>
  What the program cannot decide itself: which removals fail (and with which error text),
  whether listing the directory fails, the \<open>NODE_ENV\<close> mode, the text of \<open>err.stack\<close>,
  the environment variable \<open>PORT\<close> (if set), and whether the csv-parser package acts on
  the option \<open>maxRows\<close> it is given.
\<close>

record env =
  unlink_error :: "string \<Rightarrow> string option"
  readdir_error :: "string option"
  production :: bool
  error_stack :: "string \<Rightarrow> string"
  port_variable :: "string option"
  parser_honours_maxRows :: bool

text \<open>
  The uploads directory (\<open>uploadsDir\<close>) as the list of its entries in the order
  \<open>fs.readdirSync\<close> returns them; a file is named by its entry in that directory.
\<close>

type_synonym dir = "string list"

text \<open>Everything observable a run does, in order.\<close>

datatype effect =
    WriteFile string
  | CreateReadStream string
  | Unlink string
  | ConsoleLog string
  | ConsoleError string
  | Respond nat json
  | ProcessExit nat

text \<open>\<open>fs.unlinkSync\<close>: the thrown error (as \<open>`${err}`\<close> prints it) or the directory without the entry.\<close>

definition unlinkSync :: "env \<Rightarrow> string \<Rightarrow> dir \<Rightarrow> string + dir" where
  "unlinkSync e f d =
     (case unlink_error e f of
        Some err \<Rightarrow> Inl err
      | None \<Rightarrow>
          if f \<in> set d then Inr (removeAll f d)
          else Inl (''Error: ENOENT: no such file or directory, unlink '' @ f))"

text \<open>
  server.js:22-26, the body of \<open>files.forEach\<close>: an exception of \<open>unlinkSync\<close> leaves the
  loop; what was removed before stays removed.
\<close>

fun forEach_unlink :: "env \<Rightarrow> string list \<Rightarrow> dir \<Rightarrow> string option \<times> dir \<times> effect list" where
  "forEach_unlink e [] d = (None, d, [])"
| "forEach_unlink e (f # fs) d =
     (case unlinkSync e f d of
        Inl err \<Rightarrow> (Some err, d, [Unlink f])
      | Inr d' \<Rightarrow>
          (case forEach_unlink e fs d' of
             (r, d'', es) \<Rightarrow> (r, d'', [Unlink f, ConsoleLog (''Cleaned up leftover file: '' @ f)] @ es)))"

text \<open>server.js:19-30, \<open>cleanupUploads\<close>: one \<open>try\<close> around the listing and the whole loop.\<close>

definition cleanupUploads :: "env \<Rightarrow> dir \<Rightarrow> dir \<times> effect list" where
  "cleanupUploads e d =
     (case readdir_error e of
        Some err \<Rightarrow> (d, [ConsoleError (''Cleanup error: '' @ err)])
      | None \<Rightarrow>
          (case forEach_unlink e d d of
             (None, d', es) \<Rightarrow> (d', es)
           | (Some err, d', es) \<Rightarrow> (d', es @ [ConsoleError (''Cleanup error: '' @ err)])))"

section \<open>The upload receiver (multer configuration, server.js:36-56)\<close>

record upload_file =
  originalname :: string
  mimetype :: string
  content :: string

text \<open>The three clock readings of one request: server.js:42, 67 and 91.\<close>

record clock =
  uploadTime :: int
  startTime :: int
  endTime :: int

text \<open>server.js:49-55: \<open>None\<close> is \<open>cb(null, true)\<close>, \<open>Some msg\<close> is \<open>cb(new Error(msg))\<close>.\<close>

definition fileFilter :: "upload_file \<Rightarrow> string option" where
  "fileFilter file =
     (if mimetype file = ''text/csv'' \<or> suffix ''.csv'' (originalname file) then None
      else Some ''Only CSV files are allowed'')"

text \<open>server.js:48.\<close>

definition fileSize_limit :: nat where
  "fileSize_limit = 10 * 1024 * 1024"

text \<open>server.js:40-43.\<close>

definition filename :: "int \<Rightarrow> upload_file \<Rightarrow> string" where
  "filename now file = number_string now @ ''-'' @ originalname file"

text \<open>The disk storage creates the entry, or overwrites the entry of that name.\<close>

definition write_file :: "string \<Rightarrow> dir \<Rightarrow> dir" where
  "write_file f d = (if f \<in> set d then d else d @ [f])"

text \<open>server.js:109-115, the error-handling middleware.\<close>

definition error_middleware :: "env \<Rightarrow> string \<Rightarrow> effect list" where
  "error_middleware e msg =
     [ConsoleError (''Unhandled error: '' @ error_stack e msg),
      Respond 500 (JObject
        [(''error'', JString ''Server encountered an unexpected error''),
         (''message'', JString (if production e then ''Please try again later'' else msg))])]"

section \<open>The CSV decoder\<close>

text \<open>
  The events that reach the listeners of server.js:69-105. \<open>Data\<close>, \<open>End\<close> and
  \<open>ParserError\<close> are emitted by the parser, on which the three listeners are registered
  (\<open>.pipe\<close> returns the parser). \<open>ReadError\<close> is an \<open>error\<close> event of the stream that
  \<open>fs.createReadStream\<close> returns; that stream has no \<open>error\<close> listener.
\<close>

datatype stream_event =
    Data js_object
  | End
  | ParserError string
  | ReadError string

text \<open>The pieces of a text between the occurrences of a separator (at least one piece).\<close>

fun split_on :: "char \<Rightarrow> string \<Rightarrow> string list" where
  "split_on c [] = [[]]"
| "split_on c (x # xs) =
     (if x = c then [] # split_on c xs
      else (case split_on c xs of [] \<Rightarrow> [[x]] | p # ps \<Rightarrow> (x # p) # ps))"

text \<open>
  Modelled from the spec: the row splitting of the CSV Decoder (the csv-parser package that
  server.js:70 calls; its code is not under src/). The text is cut at line feeds; a line
  feed at the very end of the text starts no further row. Quoting is not part of the model.
\<close>

definition split_lines :: "string \<Rightarrow> string list" where
  "split_lines txt =
     (let ps = split_on (CHR 0x0A) txt in if last ps = [] then butlast ps else ps)"

text \<open>
  Modelled from the spec: the cells of one row of the CSV Decoder. A row is cut at commas;
  an empty row has no cell.
\<close>

definition split_cells :: "string \<Rightarrow> string list" where
  "split_cells line = (if line = [] then [] else split_on (CHR '','') line)"

text \<open>
  Modelled from the spec: the record of one data row, a mapping from column name to cell
  value, built by assigning the cells to the column names from left to right.
\<close>

definition row_object :: "string list \<Rightarrow> string list \<Rightarrow> js_object" where
  "row_object headers cells = foldl (\<lambda>obj hc. js_put (fst hc) (snd hc) obj) [] (zip headers cells)"

text \<open>
  Modelled from the spec: strict mode. A data row whose column count differs from the
  header's is a parse error for the whole operation; nothing is produced after it.
\<close>

fun emit_rows :: "string list \<Rightarrow> string list \<Rightarrow> stream_event list" where
  "emit_rows headers [] = [End]"
| "emit_rows headers (l # ls) =
     (if length (split_cells l) \<noteq> length headers
      then [ParserError ''RangeError: Row length does not match headers'']
      else Data (row_object headers (split_cells l)) # emit_rows headers ls)"

text \<open>
  Modelled from the spec: the CSV Decoder as a whole. The first row defines the column
  names; every later row gives one record. A decoder that acts on \<open>maxRows\<close> stops
  producing records after that many rows and ignores the rest of the text; one that does
  not act on it reads every row.
\<close>

definition csv_parser :: "bool \<Rightarrow> nat \<Rightarrow> string \<Rightarrow> stream_event list" where
  "csv_parser honours maxRows txt =
     (case split_lines txt of
        [] \<Rightarrow> [End]
      | h # ls \<Rightarrow> emit_rows (split_cells h) (if honours then take maxRows ls else ls))"

section \<open>The request handler (server.js:59-106)\<close>

record conversion =
  results :: "js_object list"
  rowCount :: nat

text \<open>server.js:66.\<close>

definition MAX_ROWS :: nat where
  "MAX_ROWS = 100000"

text \<open>server.js:75-84; the branch on \<open>rowCount % 10000\<close> is empty.\<close>

definition on_data :: "js_object \<Rightarrow> conversion \<Rightarrow> conversion" where
  "on_data row c = c\<lparr>results := results c @ [row], rowCount := rowCount c + 1\<rparr>"

text \<open>
  \<open>fs.unlink(path, cb)\<close> of server.js:87-89 and 101-103: the directory afterwards and what
  the callback logs.
\<close>

definition fs_unlink :: "env \<Rightarrow> string \<Rightarrow> dir \<Rightarrow> dir \<times> effect list" where
  "fs_unlink e path d =
     (case unlinkSync e path d of
        Inl err \<Rightarrow> (d, [ConsoleError (''Error deleting file: '' @ err)])
      | Inr d' \<Rightarrow> (d', []))"

text \<open>server.js:85-97.\<close>

definition on_end :: "env \<Rightarrow> string \<Rightarrow> clock \<Rightarrow> conversion \<Rightarrow> dir \<Rightarrow> dir \<times> effect list" where
  "on_end e path clk c d =
     (case fs_unlink e path d of
        (d', cb) \<Rightarrow>
          (d', [Unlink path,
                Respond 200 (JObject
                  [(''data'', JArray (map json_of_object (results c))),
                   (''rowCount'', JNumber (int (length (results c)))),
                   (''processingTime'', JString (number_string (endTime clk - startTime clk) @ ''ms''))])]
               @ cb))"

text \<open>server.js:98-105.\<close>

definition on_error :: "env \<Rightarrow> string \<Rightarrow> string \<Rightarrow> dir \<Rightarrow> dir \<times> effect list" where
  "on_error e path err d =
     (case fs_unlink e path d of
        (d', cb) \<Rightarrow>
          (d', [ConsoleError (''CSV parsing error: '' @ err),
                Unlink path,
                Respond 500 (JObject [(''error'', JString ''Failed to convert file'')])]
               @ cb))"

text \<open>server.js:118-125, the \<open>uncaughtException\<close> listener of the process.\<close>

definition uncaughtException :: "env \<Rightarrow> string \<Rightarrow> dir \<Rightarrow> dir \<times> effect list" where
  "uncaughtException e err d =
     (case cleanupUploads e d of
        (d', es) \<Rightarrow> (d', [ConsoleError (''Uncaught Exception: '' @ err)] @ es @ [ProcessExit 1]))"

text \<open>
  The stream of server.js:69-105 delivering its events. The three listeners are registered
  with \<open>.on\<close> and nothing removes or guards them, so every event of the parser runs its
  listener, also one that comes after an \<open>end\<close> or an \<open>error\<close>. An \<open>error\<close> event of the
  read stream finds no listener and becomes an uncaught exception of the process, whose
  listener ends the process.
\<close>

fun pump :: "env \<Rightarrow> string \<Rightarrow> clock \<Rightarrow> stream_event list \<Rightarrow> conversion \<Rightarrow> dir \<Rightarrow> dir \<times> effect list" where
  "pump e path clk [] c d = (d, [])"
| "pump e path clk (Data row # evs) c d = pump e path clk evs (on_data row c) d"
| "pump e path clk (End # evs) c d =
     (case on_end e path clk c d of
        (d', es) \<Rightarrow> (case pump e path clk evs c d' of (d'', es') \<Rightarrow> (d'', es @ es')))"
| "pump e path clk (ParserError err # evs) c d =
     (case on_error e path err d of
        (d', es) \<Rightarrow> (case pump e path clk evs c d' of (d'', es') \<Rightarrow> (d'', es @ es')))"
| "pump e path clk (ReadError err # evs) c d = uncaughtException e err d"

text \<open>
  server.js:59-106, the route handler: \<open>file\<close> is \<open>req.file.path\<close> when multer stored a
  file and \<open>None\<close> when \<open>req.file\<close> is undefined; \<open>evs\<close> is what the stream delivers.
\<close>

definition convert_handler ::
  "env \<Rightarrow> clock \<Rightarrow> string option \<Rightarrow> stream_event list \<Rightarrow> dir \<Rightarrow> dir \<times> effect list" where
  "convert_handler e clk file evs d =
     (case file of
        None \<Rightarrow> (d, [Respond 400 (JObject [(''error'', JString ''No file uploaded'')])])
      | Some path \<Rightarrow>
          (case pump e path clk evs \<lparr>results = [], rowCount = 0\<rparr> d of
             (d', es) \<Rightarrow> (d', CreateReadStream path # es)))"

text \<open>
  \<open>POST /convert\<close>: \<open>upload.single('csvFile')\<close> and then the handler. The file filter runs
  before the storage; a rejected file reaches the error-handling middleware, not the
  handler.

  Modelled from the spec: the size constraint of the Upload Receiver (multer, not under
  src/): a transfer whose bytes exceed the limit is aborted, the partially written file is
  removed, and the error is passed on.
\<close>

definition post_convert :: "env \<Rightarrow> clock \<Rightarrow> upload_file option \<Rightarrow> dir \<Rightarrow> dir \<times> effect list" where
  "post_convert e clk file d =
     (case file of
        None \<Rightarrow> convert_handler e clk None [] d
      | Some f \<Rightarrow>
          (case fileFilter f of
             Some msg \<Rightarrow> (d, error_middleware e msg)
           | None \<Rightarrow>
               (let path = filename (uploadTime clk) f; d1 = write_file path d in
                if fileSize_limit < length (content f) then
                  (case unlinkSync e path d1 of
                     Inl err \<Rightarrow> (d1, [WriteFile path, Unlink path] @ error_middleware e ''File too large'')
                   | Inr d2 \<Rightarrow> (d2, [WriteFile path, Unlink path] @ error_middleware e ''File too large''))
                else
                  (case convert_handler e clk (Some path)
                          (csv_parser (parser_honours_maxRows e) MAX_ROWS (content f)) d1 of
                     (d2, es) \<Rightarrow> (d2, WriteFile path # es)))))"

text \<open>server.js:153: \<open>process.env.PORT || 3000\<close>; an empty string is falsy.\<close>

definition PORT :: "env \<Rightarrow> string" where
  "PORT e = (case port_variable e of None \<Rightarrow> ''3000'' | Some p \<Rightarrow> if p = [] then ''3000'' else p)"

text \<open>
  The process: the purge of server.js:33 runs when the module is loaded, the server starts
  listening at server.js:154 and logs its port (server.js:155), and the requests are
  served after that.
\<close>

fun serve :: "env \<Rightarrow> (clock \<times> upload_file option) list \<Rightarrow> dir \<Rightarrow> dir \<times> effect list" where
  "serve e [] d = (d, [])"
| "serve e (r # rs) d =
     (case post_convert e (fst r) (snd r) d of
        (d', es) \<Rightarrow> (case serve e rs d' of (d'', es') \<Rightarrow> (d'', es @ es')))"

definition server_main :: "env \<Rightarrow> (clock \<times> upload_file option) list \<Rightarrow> dir \<Rightarrow> dir \<times> effect list" where
  "server_main e reqs d =
     (case cleanupUploads e d of
        (d0, es0) \<Rightarrow>
          (case serve e reqs d0 of
             (d1, es1) \<Rightarrow> (d1, es0 @ ConsoleLog (''Server running on port '' @ PORT e) # es1)))"

section \<open>Observations\<close>

text \<open>
  \<open>Respond\<close> records a call of \<open>res.json\<close>. The response a client receives is the first
  one sent; a later call cannot change it.
\<close>

fun response :: "effect list \<Rightarrow> (nat \<times> json) option" where
  "response [] = None"
| "response (Respond s b # es) = Some (s, b)"
| "response (x # es) = response es"

definition unlink_calls :: "string \<Rightarrow> effect list \<Rightarrow> nat" where
  "unlink_calls path es = length (filter (\<lambda>x. x = Unlink path) es)"

text \<open>Whether the client receives a response with a status from 400 to 499.\<close>

definition client_error :: "effect list \<Rightarrow> bool" where
  "client_error es = (case response es of None \<Rightarrow> False | Some r \<Rightarrow> 400 \<le> fst r \<and> fst r < 500)"

text \<open>
  A decimal integer as a template literal prints it: an optional minus sign and then at
  least one digit.
\<close>

definition is_decimal_integer :: "string \<Rightarrow> bool" where
  "is_decimal_integer s =
     (case s of [] \<Rightarrow> False
      | c # cs \<Rightarrow> if c = CHR ''-'' then cs \<noteq> [] \<and> list_all is_digit cs else list_all is_digit s)"

text \<open>The integer that such a numeral denotes.\<close>

definition integer_value :: "string \<Rightarrow> int" where
  "integer_value s =
     (case s of [] \<Rightarrow> 0
      | c # cs \<Rightarrow> if c = CHR ''-'' then - int (decimal_value cs) else int (decimal_value s))"

text \<open>A column name that a record keeps in its place: neither an array index nor \<open>__proto__\<close>.\<close>

definition plain_key :: "string \<Rightarrow> bool" where
  "plain_key k = (k \<noteq> ''__proto__'' \<and> \<not> is_array_index k)"

text \<open>An uploaded file: one that passes the file filter and the size limit of the upload receiver.\<close>

definition accepted :: "upload_file \<Rightarrow> bool" where
  "accepted f = (fileFilter f = None \<and> length (content f) \<le> fileSize_limit)"

section \<open>Example inputs\<close>

text \<open>
  An environment without faults, in development mode, whose parser does not act on
  \<open>maxRows\<close>.
\<close>

definition plain_env :: env where
  "plain_env =
     \<lparr>unlink_error = (\<lambda>f. None), readdir_error = None, production = False,
      error_stack = (\<lambda>m. ''Error: '' @ m), port_variable = None,
      parser_honours_maxRows = False\<rparr>"

definition example_clock :: clock where
  "example_clock =
     \<lparr>uploadTime = 1700000000000, startTime = 1700000000005, endTime = 1700000000012\<rparr>"

definition example_file :: upload_file where
  "example_file =
     \<lparr>originalname = ''t.csv'', mimetype = ''text/csv'',
      content = ''a,b\<newline>1,2\<newline>3,4\<newline>''\<rparr>"

definition header_only_file :: upload_file where
  "header_only_file =
     \<lparr>originalname = ''h.csv'', mimetype = ''application/octet-stream'',
      content = ''a,b\<newline>''\<rparr>"

text \<open>An upload without a single byte.\<close>

definition empty_file :: upload_file where
  "empty_file = \<lparr>originalname = ''e.csv'', mimetype = ''text/csv'', content = []\<rparr>"

text \<open>An upload that is no CSV file by name or by media type.\<close>

definition text_file :: upload_file where
  "text_file =
     \<lparr>originalname = ''notes.txt'', mimetype = ''text/plain'', content = ''hello''\<rparr>"

text \<open>An environment in which the entry \<open>a.csv\<close> cannot be removed.\<close>

definition locked_env :: env where
  "locked_env =
     \<lparr>unlink_error = (\<lambda>f. if f = ''a.csv'' then Some ''Error: EPERM: operation not permitted, unlink'' else None),
      readdir_error = None, production = False,
      error_stack = (\<lambda>m. ''Error: '' @ m), port_variable = None,
      parser_honours_maxRows = False\<rparr>"

text \<open>An upload whose second column is named \<open>1\<close>.\<close>

definition numbered_file :: upload_file where
  "numbered_file =
     \<lparr>originalname = ''n.csv'', mimetype = ''text/csv'',
      content = ''b,1\<newline>x,y\<newline>''\<rparr>"

text \<open>An upload of one column with 100001 data rows.\<close>

definition big_file :: upload_file where
  "big_file =
     \<lparr>originalname = ''big.csv'', mimetype = ''text/csv'',
      content = concat (map (\<lambda>r. r @ [CHR 0x0A]) (''a'' # replicate 100001 ''1''))\<rparr>"

section \<open>Auxiliary facts\<close>

subsection \<open>Decimal numerals\<close>

declare decimal.simps [simp del]

lemma digit_char_is_digit: "is_digit (digit_char d)"
proof -
  have "d mod 10 < length ''0123456789''" by simp
  then have "''0123456789'' ! (d mod 10) \<in> set ''0123456789''" by (rule nth_mem)
  then show ?thesis by (simp only: digit_char_def is_digit_def)
qed

lemma decimal_digits: "list_all is_digit (decimal n)"
proof (induction n rule: decimal.induct)
  case (1 n)
  show ?case
  proof (cases "n < 10")
    case True
    then show ?thesis by (subst decimal.simps) (simp add: digit_char_is_digit)
  next
    case False
    with 1 show ?thesis by (subst decimal.simps) (simp add: digit_char_is_digit)
  qed
qed

lemma decimal_nonempty: "decimal n \<noteq> []"
  by (subst decimal.simps) simp

lemma minus_not_digit: "\<not> is_digit (CHR ''-'')"
  by (simp add: is_digit_def)

lemma number_string_decimal: "is_decimal_integer (number_string i)"
proof (cases "i < 0")
  case True
  then show ?thesis
    by (simp add: number_string_def is_decimal_integer_def decimal_nonempty decimal_digits)
next
  case False
  obtain c cs where cs: "decimal (nat i) = c # cs"
    using decimal_nonempty [of "nat i"] by (cases "decimal (nat i)") auto
  have all: "list_all is_digit (c # cs)" using decimal_digits [of "nat i"] cs by simp
  then have "c \<noteq> CHR ''-''" using minus_not_digit by auto
  with False cs all show ?thesis
    by (simp add: number_string_def is_decimal_integer_def)
qed

lemma digit_char_value: "of_char (digit_char d) = (48 + d mod 10 :: nat)"
proof -
  have "d mod 10 < 10" by simp
  then have "d mod 10 = 0 \<or> d mod 10 = 1 \<or> d mod 10 = 2 \<or> d mod 10 = 3 \<or> d mod 10 = 4
    \<or> d mod 10 = 5 \<or> d mod 10 = 6 \<or> d mod 10 = 7 \<or> d mod 10 = 8 \<or> d mod 10 = 9"
    by arith
  then show ?thesis by (elim disjE) (simp_all add: digit_char_def)
qed

lemma decimal_value_snoc:
  "decimal_value (ds @ [c]) = 10 * decimal_value ds + (of_char c - 48)"
  by (simp add: decimal_value_def)

lemma decimal_value_decimal: "decimal_value (decimal n) = n"
proof (induction n rule: decimal.induct)
  case (1 n)
  show ?case
  proof (cases "n < 10")
    case True
    then show ?thesis
      by (subst decimal.simps) (simp add: decimal_value_def digit_char_value)
  next
    case False
    with 1 have "decimal_value (decimal (n div 10)) = n div 10" by simp
    with False show ?thesis
      by (subst decimal.simps) (simp add: decimal_value_snoc digit_char_value)
  qed
qed

lemma integer_value_number_string: "integer_value (number_string i) = i"
proof (cases "i < 0")
  case True
  then show ?thesis
    by (simp add: number_string_def integer_value_def decimal_value_decimal)
next
  case False
  obtain c cs where cs: "decimal (nat i) = c # cs"
    using decimal_nonempty [of "nat i"] by (cases "decimal (nat i)") auto
  have "list_all is_digit (c # cs)" using decimal_digits [of "nat i"] cs by simp
  then have "c \<noteq> CHR ''-''" using minus_not_digit by auto
  moreover have "decimal_value (c # cs) = nat i"
    using decimal_value_decimal [of "nat i"] cs by simp
  ultimately show ?thesis
    using False cs by (simp add: number_string_def integer_value_def)
qed

subsection \<open>The stream and the decoder\<close>

lemma pump_data:
  "pump e path clk (map Data rows @ evs) c d =
   pump e path clk evs (c\<lparr>results := results c @ rows, rowCount := rowCount c + length rows\<rparr>) d"
  by (induction rows arbitrary: c) (simp_all add: on_data_def)

lemma emit_rows_ok:
  "list_all (\<lambda>l. length (split_cells l) = length hs) ls \<Longrightarrow>
   emit_rows hs ls = map (\<lambda>l. Data (row_object hs (split_cells l))) ls @ [End]"
  by (induction ls) simp_all

lemma split_lines_empty: "split_lines [] = []"
  by (simp add: split_lines_def)

lemma csv_parser_empty: "csv_parser honours maxRows [] = [End]"
  by (simp add: csv_parser_def split_lines_empty)

subsection \<open>Records with plain keys\<close>

lemma own_entries_plain:
  "list_all (\<lambda>kv. \<not> is_array_index (fst kv)) obj \<Longrightarrow> own_entries obj = obj"
proof -
  assume a: "list_all (\<lambda>kv. \<not> is_array_index (fst kv)) obj"
  then have "filter (\<lambda>kv. is_array_index (fst kv)) obj = []"
    by (simp add: list_all_iff filter_empty_conv)
  moreover from a have "filter (\<lambda>kv. \<not> is_array_index (fst kv)) obj = obj"
    by (simp add: list_all_iff)
  ultimately show ?thesis by (simp add: own_entries_def)
qed

lemma foldl_js_put:
  "distinct hs \<Longrightarrow> ''__proto__'' \<notin> set hs \<Longrightarrow> set hs \<inter> fst ` set acc = {} \<Longrightarrow>
   foldl (\<lambda>obj hc. js_put (fst hc) (snd hc) obj) acc (zip hs cs) = acc @ zip hs cs"
proof (induction hs arbitrary: cs acc)
  case Nil
  then show ?case by simp
next
  case (Cons h hs)
  show ?case
  proof (cases cs)
    case Nil
    then show ?thesis by simp
  next
    case (Cons c cs')
    from Cons.prems have put: "js_put h c acc = acc @ [(h, c)]"
      by (auto simp: js_put_def)
    from Cons.prems have "set hs \<inter> fst ` set (acc @ [(h, c)]) = {}" by auto
    with Cons.prems Cons.IH [of "acc @ [(h, c)]" cs'] put Cons show ?thesis by simp
  qed
qed

lemma row_object_plain:
  "distinct hs \<Longrightarrow> list_all plain_key hs \<Longrightarrow> row_object hs cs = zip hs cs"
  using foldl_js_put [of hs "[]" cs] by (auto simp: row_object_def list_all_iff plain_key_def)

lemma json_of_object_plain:
  "distinct hs \<Longrightarrow> list_all plain_key hs \<Longrightarrow>
   json_of_object (row_object hs cs) = JObject (zip hs (map JString cs))"
proof -
  assume d: "distinct hs" and p: "list_all plain_key hs"
  have "list_all (\<lambda>kv. \<not> is_array_index (fst kv)) (zip hs cs)"
    using p by (auto simp: list_all_iff plain_key_def dest: set_zip_leftD)
  then have "own_entries (zip hs cs) = zip hs cs" by (rule own_entries_plain)
  with d p show ?thesis
    by (simp add: json_of_object_def row_object_plain zip_map2)
qed

subsection \<open>A request with an accepted file\<close>

lemma csv_parser_ok:
  assumes "split_lines txt = h # rows"
    and "list_all (\<lambda>l. length (split_cells l) = length (split_cells h)) rows"
    and "honours \<Longrightarrow> length rows \<le> maxRows"
  shows "csv_parser honours maxRows txt =
     map (\<lambda>l. Data (row_object (split_cells h) (split_cells l))) rows @ [End]"
proof -
  have "(if honours then take maxRows rows else rows) = rows"
    using assms(3) by simp
  with assms(1,2) show ?thesis
    by (simp add: csv_parser_def emit_rows_ok)
qed

lemma pump_end:
  "pump e path clk (map Data rows @ [End]) \<lparr>results = [], rowCount = 0\<rparr> d =
   on_end e path clk \<lparr>results = rows, rowCount = length rows\<rparr> d"
  by (simp add: pump_data case_prod_beta)

lemma pump_parser_error:
  "pump e path clk (map Data rows @ [ParserError err]) \<lparr>results = [], rowCount = 0\<rparr> d =
   on_error e path err d"
  by (simp add: pump_data case_prod_beta)

lemma post_convert_accepted:
  assumes "accepted f"
  shows "post_convert e clk (Some f) d =
     (fst (pump e (filename (uploadTime clk) f) clk
             (csv_parser (parser_honours_maxRows e) MAX_ROWS (content f))
             \<lparr>results = [], rowCount = 0\<rparr> (write_file (filename (uploadTime clk) f) d)),
      WriteFile (filename (uploadTime clk) f) # CreateReadStream (filename (uploadTime clk) f) #
      snd (pump e (filename (uploadTime clk) f) clk
             (csv_parser (parser_honours_maxRows e) MAX_ROWS (content f))
             \<lparr>results = [], rowCount = 0\<rparr> (write_file (filename (uploadTime clk) f) d)))"
  using assms
  by (simp add: post_convert_def accepted_def convert_handler_def Let_def case_prod_beta)

lemma response_on_end:
  "response (snd (on_end e path clk c d)) =
     Some (200, JObject
        [(''data'', JArray (map json_of_object (results c))),
         (''rowCount'', JNumber (int (length (results c)))),
         (''processingTime'', JString (number_string (endTime clk - startTime clk) @ ''ms''))])"
  by (simp add: on_end_def case_prod_beta)

lemma response_on_error:
  "response (snd (on_error e path err d)) =
     Some (500, JObject [(''error'', JString ''Failed to convert file'')])"
  by (simp add: on_error_def case_prod_beta)

lemma convert_ok:
  assumes "accepted f"
    and "split_lines (content f) = h # rows"
    and "list_all (\<lambda>l. length (split_cells l) = length (split_cells h)) rows"
    and "parser_honours_maxRows e \<Longrightarrow> length rows \<le> MAX_ROWS"
  shows "response (snd (post_convert e clk (Some f) d)) =
     Some (200, JObject
        [(''data'', JArray (map (\<lambda>l. json_of_object (row_object (split_cells h) (split_cells l))) rows)),
         (''rowCount'', JNumber (int (length rows))),
         (''processingTime'', JString (number_string (endTime clk - startTime clk) @ ''ms''))])"
proof -
  have ev: "csv_parser (parser_honours_maxRows e) MAX_ROWS (content f) =
      map Data (map (\<lambda>l. row_object (split_cells h) (split_cells l)) rows) @ [End]"
    using csv_parser_ok [OF assms(2,3), of "parser_honours_maxRows e" MAX_ROWS] assms(4)
    by (simp add: comp_def)
  show ?thesis
    unfolding post_convert_accepted [OF assms(1)] ev pump_end
    by (simp add: response_on_end comp_def)
qed

subsection \<open>Splitting a text that was joined from rows\<close>

lemma split_on_sep: "c \<notin> set s \<Longrightarrow> split_on c (s @ c # rest) = s # split_on c rest"
  by (induction s) (auto split: list.splits)

lemma split_on_rows:
  "list_all (\<lambda>r. c \<notin> set r) rows \<Longrightarrow>
   split_on c (concat (map (\<lambda>r. r @ [c]) rows)) = rows @ [[]]"
  by (induction rows) (simp_all add: split_on_sep)

lemma split_lines_rows:
  "list_all (\<lambda>r. CHR 0x0A \<notin> set r) rows \<Longrightarrow>
   split_lines (concat (map (\<lambda>r. r @ [CHR 0x0A]) rows)) = rows"
  by (simp add: split_lines_def split_on_rows)

subsection \<open>The example inputs\<close>

lemma plain_key_a: "plain_key ''a''"
  by (simp add: plain_key_def is_array_index_def is_digit_def)

lemma plain_key_b: "plain_key ''b''"
  by (simp add: plain_key_def is_array_index_def is_digit_def)

lemma example_lines:
  "split_lines ''a,b\<newline>1,2\<newline>3,4\<newline>'' = [''a,b'', ''1,2'', ''3,4'']"
  by (simp add: split_lines_def)

lemma example_cells:
  "split_cells ''a,b'' = [''a'', ''b'']" "split_cells ''1,2'' = [''1'', ''2'']"
  "split_cells ''3,4'' = [''3'', ''4'']"
  by (simp_all add: split_cells_def)

lemma example_duration: "number_string (endTime example_clock - startTime example_clock) = ''7''"
  by (simp add: example_clock_def number_string_def decimal.simps digit_char_def)

lemma accepted_example: "accepted example_file"
  by (simp add: accepted_def fileFilter_def example_file_def fileSize_limit_def)

lemma accepted_header_only: "accepted header_only_file"
proof -
  have "''h.csv'' = ''h'' @ ''.csv''" by simp
  then have "suffix ''.csv'' ''h.csv''" by (rule suffixI)
  then show ?thesis
    by (simp add: accepted_def fileFilter_def header_only_file_def fileSize_limit_def)
qed

lemma accepted_empty: "accepted empty_file"
  by (simp add: accepted_def fileFilter_def empty_file_def fileSize_limit_def)

lemma header_only_lines: "split_lines (content header_only_file) = [''a,b'']"
  by (simp add: header_only_file_def split_lines_def)

lemma not_suffix_txt: "\<not> suffix ''.csv'' ''notes.txt''"
proof
  assume "suffix ''.csv'' ''notes.txt''"
  then have "suffix (rev ''vsc.'') (rev ''txt.seton'')" by simp
  then have "prefix ''vsc.'' ''txt.seton''" by (simp only: suffix_to_prefix rev_rev_ident)
  then show False by simp
qed

lemma numbered_record:
  "json_of_object (row_object [''b'', ''1''] [''x'', ''y'']) =
     JObject [(''1'', JString ''y''), (''b'', JString ''x'')]"
proof -
  have o: "row_object [''b'', ''1''] [''x'', ''y''] = [(''b'', ''x''), (''1'', ''y'')]"
    by (simp add: row_object_def js_put_def)
  have i: "is_array_index ''1''" "\<not> is_array_index ''b''"
    by (simp_all add: is_array_index_def is_digit_def decimal_value_def)
  show ?thesis by (simp add: o json_of_object_def own_entries_def i)
qed

lemma big_file_lines: "split_lines (content big_file) = ''a'' # replicate 100001 ''1''"
proof -
  have "list_all (\<lambda>r. CHR 0x0A \<notin> set r) (''a'' # replicate 100001 ''1'')"
    by (simp add: list_all_iff)
  then show ?thesis
    unfolding big_file_def by (simp only: upload_file.simps split_lines_rows)
qed

lemma big_file_accepted: "accepted big_file"
  by (simp add: accepted_def fileFilter_def big_file_def fileSize_limit_def length_concat
        sum_list_replicate comp_def)

subsection \<open>Responses of the handler\<close>

lemma response_in_set: "response es = Some (st, b) \<Longrightarrow> Respond st b \<in> set es"
  by (induction es rule: response.induct) auto

lemma respond_forEach: "Respond st b \<notin> set (snd (snd (forEach_unlink e fs d)))"
proof (induction fs arbitrary: d)
  case Nil
  show ?case by simp
next
  case (Cons f fs)
  show ?case
  proof (cases "unlinkSync e f d")
    case (Inl err)
    then show ?thesis by simp
  next
    case (Inr d')
    with Cons [of d'] show ?thesis by (simp add: case_prod_beta)
  qed
qed

lemma respond_cleanup: "Respond st b \<notin> set (snd (cleanupUploads e d))"
proof (cases "readdir_error e")
  case None
  obtain r d' es where f: "forEach_unlink e d d = (r, d', es)" by (cases "forEach_unlink e d d")
  have n: "Respond st b \<notin> set es" using respond_forEach [of st b e d d] f by simp
  show ?thesis
    using None f n by (cases r) (simp_all add: cleanupUploads_def)
next
  case (Some err)
  then show ?thesis by (simp add: cleanupUploads_def)
qed

lemma respond_uncaught: "Respond st b \<notin> set (snd (uncaughtException e err d))"
  using respond_cleanup [of st b e d]
  by (simp add: uncaughtException_def case_prod_beta)

lemma respond_on_end:
  "Respond st b \<in> set (snd (on_end e path clk c d)) \<Longrightarrow>
   st = 200 \<and> b = JObject
        [(''data'', JArray (map json_of_object (results c))),
         (''rowCount'', JNumber (int (length (results c)))),
         (''processingTime'', JString (number_string (endTime clk - startTime clk) @ ''ms''))]"
  by (auto simp: on_end_def fs_unlink_def case_prod_beta split: sum.splits)

lemma respond_on_error:
  "Respond st b \<in> set (snd (on_error e path err d)) \<Longrightarrow> st = 500"
  by (auto simp: on_error_def fs_unlink_def case_prod_beta split: sum.splits)

lemma pump_success:
  "Respond 200 b \<in> set (snd (pump e path clk evs c d)) \<Longrightarrow>
   \<exists>recs. b = JObject
        [(''data'', JArray recs),
         (''rowCount'', JNumber (int (length recs))),
         (''processingTime'', JString (number_string (endTime clk - startTime clk) @ ''ms''))]"
proof (induction evs arbitrary: c d)
  case Nil
  then show ?case by simp
next
  case (Cons ev evs)
  show ?case
  proof (cases ev)
    case (Data row)
    with Cons.prems Cons.IH [of "on_data row c" d] show ?thesis by simp
  next
    case End
    with Cons.prems have
      "Respond 200 b \<in> set (snd (on_end e path clk c d))
       \<or> Respond 200 b \<in> set (snd (pump e path clk evs c (fst (on_end e path clk c d))))"
      by (simp add: case_prod_beta)
    then show ?thesis
    proof
      assume "Respond 200 b \<in> set (snd (on_end e path clk c d))"
      then have "b = JObject
          [(''data'', JArray (map json_of_object (results c))),
           (''rowCount'', JNumber (int (length (map json_of_object (results c))))),
           (''processingTime'', JString (number_string (endTime clk - startTime clk) @ ''ms''))]"
        using respond_on_end by fastforce
      then show ?thesis by blast
    next
      assume "Respond 200 b \<in> set (snd (pump e path clk evs c (fst (on_end e path clk c d))))"
      then show ?thesis by (rule Cons.IH)
    qed
  next
    case (ParserError err)
    with Cons.prems have
      "Respond 200 b \<in> set (snd (on_error e path err d))
       \<or> Respond 200 b \<in> set (snd (pump e path clk evs c (fst (on_error e path err d))))"
      by (simp add: case_prod_beta)
    then show ?thesis
    proof
      assume "Respond 200 b \<in> set (snd (on_error e path err d))"
      then show ?thesis using respond_on_error by fastforce
    next
      assume "Respond 200 b \<in> set (snd (pump e path clk evs c (fst (on_error e path err d))))"
      then show ?thesis by (rule Cons.IH)
    qed
  next
    case (ReadError err)
    with Cons.prems show ?thesis by (simp add: respond_uncaught)
  qed
qed

lemma handler_success:
  assumes "Respond 200 b \<in> set (snd (convert_handler e clk file evs d))"
  shows "\<exists>recs. b = JObject
        [(''data'', JArray recs),
         (''rowCount'', JNumber (int (length recs))),
         (''processingTime'', JString (number_string (endTime clk - startTime clk) @ ''ms''))]"
proof (cases "file")
  case None
  with assms show ?thesis by (simp add: convert_handler_def)
next
  case (Some path)
  with assms have
    "Respond 200 b \<in> set (snd (pump e path clk evs \<lparr>results = [], rowCount = 0\<rparr> d))"
    by (simp add: convert_handler_def case_prod_beta)
  then show ?thesis by (rule pump_success)
qed

subsection \<open>The purge\<close>

lemma filter_takeWhile_distinct:
  "distinct xs \<Longrightarrow> filter (\<lambda>x. x \<notin> set (takeWhile P xs)) xs = dropWhile P xs"
proof (induction xs)
  case Nil
  show ?case by simp
next
  case (Cons x xs)
  show ?case
  proof (cases "P x")
    case False
    then show ?thesis by simp
  next
    case True
    from Cons.prems have nx: "x \<notin> set xs" and dx: "distinct xs" by simp_all
    have "filter (\<lambda>y. y \<noteq> x \<and> y \<notin> set (takeWhile P xs)) xs =
          filter (\<lambda>y. y \<notin> set (takeWhile P xs)) xs"
      using nx by (intro filter_cong) auto
    with True Cons.IH [OF dx] show ?thesis by simp
  qed
qed

lemma forEach_unlink_run:
  "distinct fs \<Longrightarrow> set fs \<subseteq> set d \<Longrightarrow>
   forEach_unlink e fs d =
     (case dropWhile (\<lambda>f. unlink_error e f = None) fs of [] \<Rightarrow> None | f # r \<Rightarrow> unlink_error e f,
      filter (\<lambda>x. x \<notin> set (takeWhile (\<lambda>f. unlink_error e f = None) fs)) d,
      concat (map (\<lambda>f. [Unlink f, ConsoleLog (''Cleaned up leftover file: '' @ f)])
                (takeWhile (\<lambda>f. unlink_error e f = None) fs))
      @ (case dropWhile (\<lambda>f. unlink_error e f = None) fs of [] \<Rightarrow> [] | f # r \<Rightarrow> [Unlink f]))"
proof (induction fs arbitrary: d)
  case Nil
  show ?case by simp
next
  case (Cons f fs)
  show ?case
  proof (cases "unlink_error e f")
    case (Some err)
    then show ?thesis by (simp add: unlinkSync_def)
  next
    case None
    from Cons.prems have fd: "f \<in> set d" and nf: "f \<notin> set fs" and dfs: "distinct fs"
      and sub: "set fs \<subseteq> set (removeAll f d)" by auto
    have u: "unlinkSync e f d = Inr (removeAll f d)"
      using None fd by (simp add: unlinkSync_def)
    have "filter (\<lambda>x. x \<notin> set (takeWhile (\<lambda>f. unlink_error e f = None) fs)) (removeAll f d) =
          filter (\<lambda>x. x \<noteq> f \<and> x \<notin> set (takeWhile (\<lambda>f. unlink_error e f = None) fs)) d"
      by (induction d) auto
    with Cons.IH [OF dfs sub] u None show ?thesis
      by simp
  qed
qed

lemma forEach_unlink_no_exit: "ProcessExit n \<notin> set (snd (snd (forEach_unlink e fs d)))"
proof (induction fs arbitrary: d)
  case Nil
  show ?case by simp
next
  case (Cons f fs)
  show ?case
  proof (cases "unlinkSync e f d")
    case (Inl err)
    then show ?thesis by simp
  next
    case (Inr d')
    with Cons [of d'] show ?thesis by (simp add: case_prod_beta)
  qed
qed

lemma cleanupUploads_no_exit: "ProcessExit n \<notin> set (snd (cleanupUploads e d))"
proof (cases "readdir_error e")
  case (Some err)
  then show ?thesis by (simp add: cleanupUploads_def)
next
  case None
  obtain r d' es where f: "forEach_unlink e d d = (r, d', es)" by (cases "forEach_unlink e d d")
  have "ProcessExit n \<notin> set es" using forEach_unlink_no_exit [of n e d d] f by simp
  with None f show ?thesis by (cases r) (simp_all add: cleanupUploads_def)
qed

lemma dropWhile_head: "dropWhile P xs = x # r \<Longrightarrow> \<not> P x"
  using hd_dropWhile [of P xs] by auto

lemma cleanupUploads_run:
  assumes "readdir_error e = None" and "distinct d"
  shows "cleanupUploads e d =
     (dropWhile (\<lambda>f. unlink_error e f = None) d,
      concat (map (\<lambda>f. [Unlink f, ConsoleLog (''Cleaned up leftover file: '' @ f)])
                (takeWhile (\<lambda>f. unlink_error e f = None) d))
      @ (case dropWhile (\<lambda>f. unlink_error e f = None) d of
           [] \<Rightarrow> []
         | f # r \<Rightarrow>
             (case unlink_error e f of
                None \<Rightarrow> []
              | Some err \<Rightarrow> [Unlink f, ConsoleError (''Cleanup error: '' @ err)])))"
proof (cases "dropWhile (\<lambda>f. unlink_error e f = None) d")
  case Nil
  have "forEach_unlink e d d =
     (None, [], concat (map (\<lambda>f. [Unlink f, ConsoleLog (''Cleaned up leftover file: '' @ f)])
                (takeWhile (\<lambda>f. unlink_error e f = None) d)))"
    using forEach_unlink_run [OF assms(2), of d e] filter_takeWhile_distinct [OF assms(2), of "\<lambda>f. unlink_error e f = None"]
    by (simp only: Nil list.case append_Nil2 subset_refl simp_thms)
  then show ?thesis
    by (simp only: cleanupUploads_def assms(1) Nil option.case prod.case list.case append_Nil2)
next
  case (Cons f r)
  from dropWhile_head [OF Cons] obtain err where err: "unlink_error e f = Some err" by auto
  have "forEach_unlink e d d =
     (Some err, f # r, concat (map (\<lambda>f. [Unlink f, ConsoleLog (''Cleaned up leftover file: '' @ f)])
                (takeWhile (\<lambda>f. unlink_error e f = None) d)) @ [Unlink f])"
    using forEach_unlink_run [OF assms(2), of d e] filter_takeWhile_distinct [OF assms(2), of "\<lambda>f. unlink_error e f = None"]
    by (simp only: Cons list.case err subset_refl simp_thms)
  then show ?thesis
    by (simp only: cleanupUploads_def assms(1) Cons err option.case prod.case list.case append_assoc append_Cons append_Nil)
qed

subsection \<open>Parse errors\<close>

lemma emit_rows_bad:
  assumes "list_all (\<lambda>l. length (split_cells l) = length hs) good"
    and "length (split_cells bad) \<noteq> length hs"
  shows "emit_rows hs (good @ bad # rest) =
     map (\<lambda>l. Data (row_object hs (split_cells l))) good
     @ [ParserError ''RangeError: Row length does not match headers'']"
  using assms by (induction good) simp_all

text \<open>
  The parser-error path of the handler: a data row whose column count differs from the
  header's (before the row cap, if the parser has one) is answered with status 500 and the
  body \<open>{ error: "Failed to convert file" }\<close>, which holds no record.
\<close>

lemma parse_error_response:
  assumes "accepted f"
    and "split_lines (content f) = h # good @ bad # rest"
    and "list_all (\<lambda>l. length (split_cells l) = length (split_cells h)) good"
    and "length (split_cells bad) \<noteq> length (split_cells h)"
    and "parser_honours_maxRows e \<Longrightarrow> length good < MAX_ROWS"
  shows "response (snd (post_convert e clk (Some f) d)) =
     Some (500, JObject [(''error'', JString ''Failed to convert file'')])"
proof -
  have t: "(if parser_honours_maxRows e then take MAX_ROWS (good @ bad # rest) else good @ bad # rest)
      = good @ bad # (if parser_honours_maxRows e then take (MAX_ROWS - Suc (length good)) rest else rest)"
    using assms(5) by (auto simp: take_Cons')
  have ev: "csv_parser (parser_honours_maxRows e) MAX_ROWS (content f) =
      map Data (map (\<lambda>l. row_object (split_cells h) (split_cells l)) good)
      @ [ParserError ''RangeError: Row length does not match headers'']"
    using emit_rows_bad [OF assms(3,4)]
    by (simp add: csv_parser_def assms(2) t comp_def del: take_append)
  show ?thesis
    unfolding post_convert_accepted [OF assms(1)] ev pump_parser_error
    by (simp add: response_on_error)
qed

subsection \<open>A parser that acts on the row cap\<close>

lemma emit_rows_count:
  "\<exists>rows. length rows \<le> length ls \<and>
     (emit_rows hs ls = map Data rows @ [End]
      \<or> emit_rows hs ls = map Data rows @ [ParserError ''RangeError: Row length does not match headers''])"
proof (induction ls)
  case Nil
  have "length ([] :: js_object list) \<le> length ([] :: string list)
      \<and> emit_rows hs [] = map Data [] @ [End]" by simp
  then show ?case by blast
next
  case (Cons l ls)
  show ?case
  proof (cases "length (split_cells l) = length hs")
    case False
    then have "length ([] :: js_object list) \<le> length (l # ls) \<and> emit_rows hs (l # ls) =
        map Data [] @ [ParserError ''RangeError: Row length does not match headers'']"
      by simp
    then show ?thesis by blast
  next
    case True
    from Cons obtain rows where n: "length rows \<le> length ls" and
      r: "emit_rows hs ls = map Data rows @ [End]
        \<or> emit_rows hs ls = map Data rows @ [ParserError ''RangeError: Row length does not match headers'']"
      by blast
    from r True have
      "emit_rows hs (l # ls) = map Data (row_object hs (split_cells l) # rows) @ [End]
        \<or> emit_rows hs (l # ls) = map Data (row_object hs (split_cells l) # rows)
            @ [ParserError ''RangeError: Row length does not match headers'']"
      by auto
    moreover from n have "length (row_object hs (split_cells l) # rows) \<le> length (l # ls)"
      by simp
    ultimately show ?thesis by blast
  qed
qed

lemma csv_parser_count:
  "\<exists>rows. length rows \<le> maxRows \<and>
     (csv_parser True maxRows t = map Data rows @ [End]
      \<or> csv_parser True maxRows t =
           map Data rows @ [ParserError ''RangeError: Row length does not match headers''])"
proof (cases "split_lines t")
  case Nil
  then have "csv_parser True maxRows t = map Data [] @ [End]"
    by (simp add: csv_parser_def)
  moreover have "length ([] :: js_object list) \<le> maxRows" by simp
  ultimately show ?thesis by blast
next
  case (Cons h ls)
  then have c: "csv_parser True maxRows t = emit_rows (split_cells h) (take maxRows ls)"
    by (simp add: csv_parser_def)
  from emit_rows_count [of "take maxRows ls" "split_cells h"] obtain rows where
    n: "length rows \<le> length (take maxRows ls)" and
    r: "emit_rows (split_cells h) (take maxRows ls) = map Data rows @ [End]
      \<or> emit_rows (split_cells h) (take maxRows ls) =
          map Data rows @ [ParserError ''RangeError: Row length does not match headers'']"
    by blast
  from n have "length rows \<le> maxRows" by simp
  with r c show ?thesis by auto
qed

text \<open>
  With a parser that does act on \<open>maxRows\<close>, no response holds more than \<open>MAX_ROWS\<close>
  records: the cap is the parser's alone.
\<close>

lemma row_cap_if_honoured:
  assumes "parser_honours_maxRows e"
    and "response (snd (post_convert e clk (Some f) d)) = Some (200, JObject ((''data'', JArray recs) # ms))"
  shows "length recs \<le> MAX_ROWS"
proof (cases "accepted f")
  case False
  with assms(2) show ?thesis
    by (auto simp: accepted_def post_convert_def error_middleware_def Let_def
          split: option.splits sum.splits if_splits)
next
  case True
  from csv_parser_count [of MAX_ROWS "content f"] obtain rows where
    n: "length rows \<le> MAX_ROWS" and
    r: "csv_parser True MAX_ROWS (content f) = map Data rows @ [End]
      \<or> csv_parser True MAX_ROWS (content f) =
          map Data rows @ [ParserError ''RangeError: Row length does not match headers'']"
    by blast
  from r show ?thesis
  proof
    assume ev: "csv_parser True MAX_ROWS (content f) = map Data rows @ [End]"
    have "response (snd (post_convert e clk (Some f) d)) =
        response (snd (on_end e (filename (uploadTime clk) f) clk
           \<lparr>results = rows, rowCount = length rows\<rparr> (write_file (filename (uploadTime clk) f) d)))"
      unfolding post_convert_accepted [OF True] using assms(1) ev by (simp add: pump_end)
    with assms(2) have "recs = map json_of_object rows"
      by (simp add: response_on_end)
    with n show ?thesis by simp
  next
    assume ev: "csv_parser True MAX_ROWS (content f) =
        map Data rows @ [ParserError ''RangeError: Row length does not match headers'']"
    have "response (snd (post_convert e clk (Some f) d)) =
        response (snd (on_error e (filename (uploadTime clk) f)
           ''RangeError: Row length does not match headers''
           (write_file (filename (uploadTime clk) f) d)))"
      unfolding post_convert_accepted [OF True] using assms(1) ev by (simp add: pump_parser_error)
    with assms(2) show ?thesis by (simp add: response_on_error)
  qed
qed

section \<open>The claims\<close>

subsection \<open>Valid uploads\<close>

text \<open>
  C1. The handler is reached by an upload that passes the file filter and the size limit.
  For every such CSV file that consists of a header row followed by N data rows, each with
  as many columns as the header, and N within the row cap, \<open>POST /convert\<close> responds with
  status 200, a \<open>data\<close> array of N records (one per row) and \<open>rowCount\<close> N. In particular the text \<open>a,b\n1,2\n3,4\n\<close> gives
  \<open>data = [{a:"1",b:"2"},{a:"3",b:"4"}]\<close> and \<open>rowCount = 2\<close>.
\<close>

theorem convert_valid_csv:
  assumes "accepted f"
  shows "(\<forall>h rows.
            split_lines (content f) = h # rows
            \<and> list_all (\<lambda>l. length (split_cells l) = length (split_cells h)) rows
            \<and> length rows \<le> MAX_ROWS \<longrightarrow>
            (\<exists>recs.
               length recs = length rows
               \<and> recs = map (\<lambda>l. json_of_object (row_object (split_cells h) (split_cells l))) rows
               \<and> response (snd (post_convert e clk (Some f) d)) =
                   Some (200, JObject
                     [(''data'', JArray recs),
                      (''rowCount'', JNumber (int (length rows))),
                      (''processingTime'', JString (number_string (endTime clk - startTime clk) @ ''ms''))])))
       \<and> (content f = ''a,b\<newline>1,2\<newline>3,4\<newline>'' \<longrightarrow>
            response (snd (post_convert e clk (Some f) d)) =
              Some (200, JObject
                [(''data'', JArray [JObject [(''a'', JString ''1''), (''b'', JString ''2'')],
                                    JObject [(''a'', JString ''3''), (''b'', JString ''4'')]]),
                 (''rowCount'', JNumber 2),
                 (''processingTime'', JString (number_string (endTime clk - startTime clk) @ ''ms''))]))"
proof (intro conjI allI impI)
  fix h rows
  assume a: "split_lines (content f) = h # rows
     \<and> list_all (\<lambda>l. length (split_cells l) = length (split_cells h)) rows
     \<and> length rows \<le> MAX_ROWS"
  then have "response (snd (post_convert e clk (Some f) d)) =
      Some (200, JObject
        [(''data'', JArray (map (\<lambda>l. json_of_object (row_object (split_cells h) (split_cells l))) rows)),
         (''rowCount'', JNumber (int (length rows))),
         (''processingTime'', JString (number_string (endTime clk - startTime clk) @ ''ms''))])"
    using convert_ok [OF assms, of h rows e clk d] by blast
  then show "\<exists>recs.
      length recs = length rows
      \<and> recs = map (\<lambda>l. json_of_object (row_object (split_cells h) (split_cells l))) rows
      \<and> response (snd (post_convert e clk (Some f) d)) =
          Some (200, JObject
            [(''data'', JArray recs),
             (''rowCount'', JNumber (int (length rows))),
             (''processingTime'', JString (number_string (endTime clk - startTime clk) @ ''ms''))])"
    by simp
next
  assume c: "content f = ''a,b\<newline>1,2\<newline>3,4\<newline>''"
  have l: "split_lines (content f) = ''a,b'' # [''1,2'', ''3,4'']"
    by (simp only: c example_lines)
  have m: "list_all (\<lambda>l. length (split_cells l) = length (split_cells ''a,b'')) [''1,2'', ''3,4'']"
    by (simp add: example_cells)
  have k: "distinct [''a'', ''b'']" "list_all plain_key [''a'', ''b'']"
    by (simp_all add: plain_key_a plain_key_b)
  have n: "parser_honours_maxRows e \<Longrightarrow> length [''1,2'', ''3,4''] \<le> MAX_ROWS"
    by (simp add: MAX_ROWS_def)
  show "response (snd (post_convert e clk (Some f) d)) =
      Some (200, JObject
        [(''data'', JArray [JObject [(''a'', JString ''1''), (''b'', JString ''2'')],
                            JObject [(''a'', JString ''3''), (''b'', JString ''4'')]]),
         (''rowCount'', JNumber 2),
         (''processingTime'', JString (number_string (endTime clk - startTime clk) @ ''ms''))])"
    using convert_ok [OF assms l m, of e clk d] n
    by (simp add: example_cells json_of_object_plain [OF k])
qed

text \<open>The example upload \<open>t.csv\<close> satisfies the hypothesis of C1.\<close>

theorem convert_valid_csv_witness:
  "accepted example_file \<and>
   response (snd (post_convert plain_env example_clock (Some example_file) [])) =
     Some (200, JObject
       [(''data'', JArray [JObject [(''a'', JString ''1''), (''b'', JString ''2'')],
                           JObject [(''a'', JString ''3''), (''b'', JString ''4'')]]),
        (''rowCount'', JNumber 2),
        (''processingTime'', JString ''7ms'')])"
proof -
  have c: "content example_file = ''a,b\<newline>1,2\<newline>3,4\<newline>''"
    by (simp add: example_file_def)
  show ?thesis
    using convert_valid_csv [OF accepted_example, of plain_env example_clock "[]"] c
    by (simp add: accepted_example example_duration)
qed

subsection \<open>The row cap\<close>

text \<open>
  C2 at an upload of 100001 data rows, with a parser that does not act on \<open>maxRows\<close>: the
  \<open>data\<close> listener (server.js:75-78) appends every row it is given, \<open>rowCount\<close> is never
  compared with \<open>MAX_ROWS\<close>, and the response holds 100001 records.
\<close>

theorem row_cap_not_enforced:
  "MAX_ROWS < 100001
   \<and> response (snd (post_convert plain_env example_clock (Some big_file) [])) =
     Some (200, JObject
       [(''data'', JArray (replicate 100001 (JObject [(''a'', JString ''1'')]))),
        (''rowCount'', JNumber 100001),
        (''processingTime'', JString ''7ms'')])"
proof -
  have c: "split_cells ''a'' = [''a'']" "split_cells ''1'' = [''1'']"
    by (simp_all add: split_cells_def)
  have m: "list_all (\<lambda>l. length (split_cells l) = length (split_cells ''a'')) (replicate 100001 ''1'')"
    by (simp add: list_all_iff c)
  have n: "\<not> parser_honours_maxRows plain_env"
    by (simp add: plain_env_def)
  have k: "distinct [''a'']" "list_all plain_key [''a'']"
    by (simp_all add: plain_key_a)
  show ?thesis
    using convert_ok [OF big_file_accepted big_file_lines m, of plain_env example_clock "[]"] n
    by (simp add: c json_of_object_plain [OF k] example_duration MAX_ROWS_def)
qed

subsection \<open>Rejected file types\<close>

text \<open>
  C3, as the code has it. A file that neither declares \<open>text/csv\<close> nor is named \<open>*.csv\<close>
  is rejected by the file filter before anything is written: the directory is unchanged, and
  the only effects are the log line and the response of the error-handling middleware,
  whose status is 500.
\<close>

theorem rejected_upload:
  assumes "mimetype f \<noteq> ''text/csv''" and "\<not> suffix ''.csv'' (originalname f)"
  shows "post_convert e clk (Some f) d =
     (d, [ConsoleError (''Unhandled error: '' @ error_stack e ''Only CSV files are allowed''),
          Respond 500 (JObject
            [(''error'', JString ''Server encountered an unexpected error''),
             (''message'', JString (if production e then ''Please try again later''
                                    else ''Only CSV files are allowed''))])])"
  using assms by (simp add: post_convert_def fileFilter_def error_middleware_def)

text \<open>C3 at the upload \<open>notes.txt\<close> of type \<open>text/plain\<close>.\<close>

theorem rejected_upload_witness:
  "mimetype text_file \<noteq> ''text/csv'' \<and> \<not> suffix ''.csv'' (originalname text_file) \<and>
   post_convert plain_env example_clock (Some text_file) [] =
     ([], [ConsoleError ''Unhandled error: Error: Only CSV files are allowed'',
           Respond 500 (JObject
             [(''error'', JString ''Server encountered an unexpected error''),
              (''message'', JString ''Only CSV files are allowed'')])])"
proof -
  have m: "mimetype text_file \<noteq> ''text/csv''" by (simp add: text_file_def)
  have n: "\<not> suffix ''.csv'' (originalname text_file)"
    by (simp add: text_file_def not_suffix_txt)
  show ?thesis
    using rejected_upload [OF m n, of plain_env example_clock "[]"] m n
    by (simp add: plain_env_def)
qed

text \<open>C3 as stated fails: the rejected upload \<open>notes.txt\<close> is answered with status 500.\<close>

theorem rejected_upload_counterexample:
  "response (snd (post_convert plain_env example_clock (Some text_file) [])) =
     Some (500, JObject
       [(''error'', JString ''Server encountered an unexpected error''),
        (''message'', JString ''Only CSV files are allowed'')])
   \<and> \<not> client_error (snd (post_convert plain_env example_clock (Some text_file) []))"
  by (simp add: post_convert_def fileFilter_def error_middleware_def text_file_def
        not_suffix_txt plain_env_def client_error_def)

subsection \<open>The startup purge\<close>

text \<open>
  C4, as the code has it. The startup purge lists the directory. When the listing fails,
  that is logged and nothing is removed. Otherwise the entries are removed in listing
  order, each removal logged, up to the first entry whose removal fails; that failure is
  logged, and the failing entry and every later one stay. So the directory is empty
  afterwards when nothing fails. The purge never ends the process, and the server starts
  listening and serves the requests after it, on the directory it leaves.
\<close>

theorem startup_purge:
  assumes "distinct d"
  shows "cleanupUploads e d =
       (case readdir_error e of
          Some err \<Rightarrow> (d, [ConsoleError (''Cleanup error: '' @ err)])
        | None \<Rightarrow>
            (dropWhile (\<lambda>f. unlink_error e f = None) d,
             concat (map (\<lambda>f. [Unlink f, ConsoleLog (''Cleaned up leftover file: '' @ f)])
                       (takeWhile (\<lambda>f. unlink_error e f = None) d))
             @ (case dropWhile (\<lambda>f. unlink_error e f = None) d of
                  [] \<Rightarrow> []
                | f # r \<Rightarrow>
                    (case unlink_error e f of
                       None \<Rightarrow> []
                     | Some err \<Rightarrow> [Unlink f, ConsoleError (''Cleanup error: '' @ err)]))))
     \<and> (readdir_error e = None \<and> list_all (\<lambda>f. unlink_error e f = None) d \<longrightarrow>
          fst (cleanupUploads e d) = [])
     \<and> ProcessExit n \<notin> set (snd (cleanupUploads e d))
     \<and> server_main e reqs d =
         (fst (serve e reqs (fst (cleanupUploads e d))),
          snd (cleanupUploads e d) @ ConsoleLog (''Server running on port '' @ PORT e)
            # snd (serve e reqs (fst (cleanupUploads e d))))"
proof -
  have 1: "cleanupUploads e d =
       (case readdir_error e of
          Some err \<Rightarrow> (d, [ConsoleError (''Cleanup error: '' @ err)])
        | None \<Rightarrow>
            (dropWhile (\<lambda>f. unlink_error e f = None) d,
             concat (map (\<lambda>f. [Unlink f, ConsoleLog (''Cleaned up leftover file: '' @ f)])
                       (takeWhile (\<lambda>f. unlink_error e f = None) d))
             @ (case dropWhile (\<lambda>f. unlink_error e f = None) d of
                  [] \<Rightarrow> []
                | f # r \<Rightarrow>
                    (case unlink_error e f of
                       None \<Rightarrow> []
                     | Some err \<Rightarrow> [Unlink f, ConsoleError (''Cleanup error: '' @ err)]))))"
  proof (cases "readdir_error e")
    case None
    then show ?thesis by (simp add: cleanupUploads_run [OF None assms])
  next
    case (Some err)
    then show ?thesis by (simp add: cleanupUploads_def)
  qed
  have 2: "readdir_error e = None \<and> list_all (\<lambda>f. unlink_error e f = None) d \<longrightarrow>
      fst (cleanupUploads e d) = []"
    by (simp add: 1 list_all_iff)
  have 3: "server_main e reqs d =
         (fst (serve e reqs (fst (cleanupUploads e d))),
          snd (cleanupUploads e d) @ ConsoleLog (''Server running on port '' @ PORT e)
            # snd (serve e reqs (fst (cleanupUploads e d))))"
    by (simp add: server_main_def case_prod_beta)
  from 1 2 3 cleanupUploads_no_exit [of n e d] show ?thesis by blast
qed

text \<open>
  C4 at a directory with two leftover files: without a fault both are removed and logged,
  and the server then logs port 3000.
\<close>

theorem startup_purge_witness:
  "distinct [''a.csv'', ''b.csv'']
   \<and> cleanupUploads plain_env [''a.csv'', ''b.csv''] =
       ([], [Unlink ''a.csv'', ConsoleLog ''Cleaned up leftover file: a.csv'',
             Unlink ''b.csv'', ConsoleLog ''Cleaned up leftover file: b.csv''])
   \<and> ProcessExit 1 \<notin> set (snd (cleanupUploads plain_env [''a.csv'', ''b.csv'']))
   \<and> server_main plain_env [] [''a.csv'', ''b.csv''] =
       ([], [Unlink ''a.csv'', ConsoleLog ''Cleaned up leftover file: a.csv'',
             Unlink ''b.csv'', ConsoleLog ''Cleaned up leftover file: b.csv'',
             ConsoleLog ''Server running on port 3000''])"
proof -
  have d: "distinct [''a.csv'', ''b.csv'']" by simp
  have u: "unlink_error plain_env = (\<lambda>f. None)" "readdir_error plain_env = None"
    "PORT plain_env = ''3000''"
    by (simp_all add: plain_env_def PORT_def)
  from startup_purge [OF d, of plain_env 1 "[]"] show ?thesis
    by (simp add: u)
qed

text \<open>
  C4 as stated fails: when \<open>a.csv\<close> cannot be removed, the purge stops there and \<open>b.csv\<close>,
  whose removal would not fail, is still in the directory.
\<close>

theorem startup_purge_counterexample:
  "unlink_error locked_env ''b.csv'' = None
   \<and> cleanupUploads locked_env [''a.csv'', ''b.csv''] =
       ([''a.csv'', ''b.csv''],
        [Unlink ''a.csv'', ConsoleError ''Cleanup error: Error: EPERM: operation not permitted, unlink''])"
  by (simp add: cleanupUploads_def unlinkSync_def locked_env_def)

subsection \<open>Removal of the temp file\<close>

text \<open>
  C5 at a stream that reports a parse error and then ends, as for a text whose last row is
  short. Both listeners run (server.js:85-105 registers them with \<open>.on\<close> and guards
  neither), so the removal of the temp file is issued twice; the second finds no file and
  its failure is logged, and a second response is attempted.
\<close>

theorem temp_file_removed_twice:
  "convert_handler plain_env example_clock (Some ''1700000000000-t.csv'')
      [ParserError ''RangeError: Row length does not match headers'', End]
      [''1700000000000-t.csv''] =
     ([], [CreateReadStream ''1700000000000-t.csv'',
           ConsoleError ''CSV parsing error: RangeError: Row length does not match headers'',
           Unlink ''1700000000000-t.csv'',
           Respond 500 (JObject [(''error'', JString ''Failed to convert file'')]),
           Unlink ''1700000000000-t.csv'',
           Respond 200 (JObject [(''data'', JArray []), (''rowCount'', JNumber 0),
                                 (''processingTime'', JString ''7ms'')]),
           ConsoleError ''Error deleting file: Error: ENOENT: no such file or directory, unlink 1700000000000-t.csv''])
   \<and> unlink_calls ''1700000000000-t.csv''
        (snd (convert_handler plain_env example_clock (Some ''1700000000000-t.csv'')
           [ParserError ''RangeError: Row length does not match headers'', End]
           [''1700000000000-t.csv''])) = 2"
proof -
  have u: "unlink_error plain_env = (\<lambda>f. None)" by (simp add: plain_env_def)
  show ?thesis
    by (simp add: convert_handler_def on_error_def on_end_def fs_unlink_def unlinkSync_def u
          unlink_calls_def example_duration)
qed

subsection \<open>Decode failures\<close>

text \<open>
  C6 at a read error. The \<open>error\<close> listener of server.js:98 is registered on the parser,
  the value of \<open>.pipe(...)\<close>; an error of the read stream does not reach it. The request
  gets no response at all: the process logs an uncaught exception, purges the directory and
  exits with code 1.
\<close>

theorem read_error_unanswered:
  "convert_handler plain_env example_clock (Some ''1700000000000-t.csv'')
      [ReadError ''Error: EIO: i/o error, read''] [''1700000000000-t.csv''] =
     ([], [CreateReadStream ''1700000000000-t.csv'',
           ConsoleError ''Uncaught Exception: Error: EIO: i/o error, read'',
           Unlink ''1700000000000-t.csv'',
           ConsoleLog ''Cleaned up leftover file: 1700000000000-t.csv'',
           ProcessExit 1])
   \<and> response (snd (convert_handler plain_env example_clock (Some ''1700000000000-t.csv'')
      [ReadError ''Error: EIO: i/o error, read''] [''1700000000000-t.csv''])) = None"
  by (simp add: convert_handler_def uncaughtException_def cleanupUploads_def unlinkSync_def
        plain_env_def)

subsection \<open>Requests without a file\<close>

text \<open>
  C7. A \<open>POST /convert\<close> request without a file field is answered with status 400 and the
  body \<open>{ error: "No file uploaded" }\<close>; that response is the only effect, so nothing is
  read or decoded and the uploads directory is left as it was.
\<close>

theorem no_file_uploaded:
  "post_convert e clk None d =
     (d, [Respond 400 (JObject [(''error'', JString ''No file uploaded'')])])"
  by (simp add: post_convert_def convert_handler_def)

text \<open>C7 at a request without a file, with one leftover entry in the directory.\<close>

theorem no_file_uploaded_witness:
  "response (snd (post_convert plain_env example_clock None [''1699999999999-old.csv''])) =
     Some (400, JObject [(''error'', JString ''No file uploaded'')])
   \<and> fst (post_convert plain_env example_clock None [''1699999999999-old.csv'']) = [''1699999999999-old.csv'']"
  using no_file_uploaded [of plain_env example_clock "[''1699999999999-old.csv'']"]
  by simp

subsection \<open>Order of keys and records\<close>

text \<open>
  C8, as the code has it. For every valid CSV upload whose header names are pairwise
  distinct and plain (no array index, not \<open>__proto__\<close>), each record has exactly the
  header's column names as keys, in header order, each with the cell of its column, and the
  records stand in \<open>data\<close> in the order of their rows.
\<close>

theorem records_in_header_order:
  assumes "accepted f"
    and "split_lines (content f) = h # rows"
    and "list_all (\<lambda>l. length (split_cells l) = length (split_cells h)) rows"
    and "length rows \<le> MAX_ROWS"
    and "distinct (split_cells h)"
    and "list_all plain_key (split_cells h)"
  shows "response (snd (post_convert e clk (Some f) d)) =
     Some (200, JObject
        [(''data'', JArray (map (\<lambda>l. JObject (zip (split_cells h) (map JString (split_cells l)))) rows)),
         (''rowCount'', JNumber (int (length rows))),
         (''processingTime'', JString (number_string (endTime clk - startTime clk) @ ''ms''))])
     \<and> list_all (\<lambda>l. map fst (zip (split_cells h) (map JString (split_cells l))) = split_cells h) rows"
proof -
  have 1: "response (snd (post_convert e clk (Some f) d)) =
     Some (200, JObject
        [(''data'', JArray (map (\<lambda>l. JObject (zip (split_cells h) (map JString (split_cells l)))) rows)),
         (''rowCount'', JNumber (int (length rows))),
         (''processingTime'', JString (number_string (endTime clk - startTime clk) @ ''ms''))])"
    using convert_ok [OF assms(1,2,3), of e clk d] assms(4)
    by (simp add: json_of_object_plain [OF assms(5,6)])
  have 2: "list_all (\<lambda>l. map fst (zip (split_cells h) (map JString (split_cells l))) = split_cells h) rows"
    using assms(3) by (simp add: list_all_iff)
  from 1 2 show ?thesis by blast
qed

text \<open>C8 at the example upload: both records have the keys \<open>a\<close>, \<open>b\<close> in that order.\<close>

theorem records_in_header_order_witness:
  "accepted example_file
   \<and> split_lines (content example_file) = [''a,b'', ''1,2'', ''3,4'']
   \<and> split_cells ''a,b'' = [''a'', ''b'']
   \<and> list_all plain_key [''a'', ''b'']
   \<and> response (snd (post_convert plain_env example_clock (Some example_file) [])) =
     Some (200, JObject
       [(''data'', JArray [JObject [(''a'', JString ''1''), (''b'', JString ''2'')],
                           JObject [(''a'', JString ''3''), (''b'', JString ''4'')]]),
        (''rowCount'', JNumber 2),
        (''processingTime'', JString ''7ms'')])"
proof -
  have l: "split_lines (content example_file) = ''a,b'' # [''1,2'', ''3,4'']"
    by (simp add: example_file_def example_lines)
  have m: "list_all (\<lambda>l. length (split_cells l) = length (split_cells ''a,b'')) [''1,2'', ''3,4'']"
    by (simp add: example_cells)
  have n: "length [''1,2'', ''3,4''] \<le> MAX_ROWS" by (simp add: MAX_ROWS_def)
  have k: "distinct (split_cells ''a,b'')" "list_all plain_key (split_cells ''a,b'')"
    by (simp_all add: example_cells plain_key_a plain_key_b)
  from records_in_header_order [OF accepted_example l m n k, of plain_env example_clock "[]"]
  show ?thesis
    using l k by (simp add: accepted_example example_cells example_duration)
qed

text \<open>
  C8 as stated fails: with the header \<open>b,1\<close> the record of the row \<open>x,y\<close> is written with
  the key \<open>1\<close> before the key \<open>b\<close>.
\<close>

theorem records_in_header_order_counterexample:
  "split_cells ''b,1'' = [''b'', ''1'']
   \<and> response (snd (post_convert plain_env example_clock (Some numbered_file) [])) =
     Some (200, JObject
       [(''data'', JArray [JObject [(''1'', JString ''y''), (''b'', JString ''x'')]]),
        (''rowCount'', JNumber 1),
        (''processingTime'', JString ''7ms'')])"
proof -
  have a: "accepted numbered_file"
    by (simp add: accepted_def fileFilter_def numbered_file_def fileSize_limit_def)
  have l: "split_lines (content numbered_file) = ''b,1'' # [''x,y'']"
    by (simp add: numbered_file_def split_lines_def)
  have c: "split_cells ''b,1'' = [''b'', ''1'']" "split_cells ''x,y'' = [''x'', ''y'']"
    by (simp_all add: split_cells_def)
  have m: "list_all (\<lambda>l. length (split_cells l) = length (split_cells ''b,1'')) [''x,y'']"
    by (simp add: c)
  have n: "parser_honours_maxRows plain_env \<Longrightarrow> length [''x,y''] \<le> MAX_ROWS"
    by (simp add: MAX_ROWS_def)
  show ?thesis
    using convert_ok [OF a l m, of plain_env example_clock "[]"] n
    by (simp add: c numbered_record example_duration)
qed

subsection \<open>The success body\<close>

text \<open>
  C9. Every response of status 200 has a body with exactly the members \<open>data\<close>,
  \<open>rowCount\<close> and \<open>processingTime\<close>, in that order; \<open>rowCount\<close> is the length of
  \<open>data\<close>, and \<open>processingTime\<close> is a decimal integer followed by \<open>ms\<close>. The integer
  it denotes is \<open>endTime - startTime\<close>: the clock read at server.js:91, just before
  \<open>res.json\<close>, minus the clock read at server.js:67, just before the stream is created.
\<close>

theorem success_body:
  assumes "Respond 200 b \<in> set (snd (post_convert e clk file d))"
  shows "\<exists>recs t.
      b = JObject
        [(''data'', JArray recs),
         (''rowCount'', JNumber (int (length recs))),
         (''processingTime'', JString (t @ ''ms''))]
      \<and> t = number_string (endTime clk - startTime clk)
      \<and> is_decimal_integer t
      \<and> integer_value t = endTime clk - startTime clk"
proof -
  have "\<exists>file' evs d'. Respond 200 b \<in> set (snd (convert_handler e clk file' evs d'))"
  proof (cases "file")
    case None
    with assms show ?thesis by (auto simp: post_convert_def)
  next
    case (Some f)
    show ?thesis
    proof (cases "fileFilter f")
      case (Some msg)
      with assms \<open>file = Some f\<close> show ?thesis
        by (simp add: post_convert_def error_middleware_def)
    next
      case None
      show ?thesis
      proof (cases "fileSize_limit < length (content f)")
        case True
        with assms None \<open>file = Some f\<close> show ?thesis
          by (simp add: post_convert_def error_middleware_def Let_def split: sum.splits)
      next
        case False
        with assms None \<open>file = Some f\<close> have
          "Respond 200 b \<in> set (snd (convert_handler e clk (Some (filename (uploadTime clk) f))
              (csv_parser (parser_honours_maxRows e) MAX_ROWS (content f))
              (write_file (filename (uploadTime clk) f) d)))"
          by (simp add: post_convert_def Let_def case_prod_beta)
        then show ?thesis by blast
      qed
    qed
  qed
  then obtain recs where "b = JObject
        [(''data'', JArray recs),
         (''rowCount'', JNumber (int (length recs))),
         (''processingTime'', JString (number_string (endTime clk - startTime clk) @ ''ms''))]"
    using handler_success by blast
  then show ?thesis
    using number_string_decimal integer_value_number_string by blast
qed

text \<open>C9 at the example upload: the clock readings are 7 ms apart and the body says \<open>7ms\<close>.\<close>

theorem success_body_witness:
  "Respond 200 (JObject
       [(''data'', JArray [JObject [(''a'', JString ''1''), (''b'', JString ''2'')],
                           JObject [(''a'', JString ''3''), (''b'', JString ''4'')]]),
        (''rowCount'', JNumber 2),
        (''processingTime'', JString ''7ms'')])
     \<in> set (snd (post_convert plain_env example_clock (Some example_file) []))
   \<and> endTime example_clock - startTime example_clock = 7
   \<and> is_decimal_integer ''7''
   \<and> integer_value ''7'' = 7"
proof -
  have r: "response (snd (post_convert plain_env example_clock (Some example_file) [])) =
     Some (200, JObject
       [(''data'', JArray [JObject [(''a'', JString ''1''), (''b'', JString ''2'')],
                           JObject [(''a'', JString ''3''), (''b'', JString ''4'')]]),
        (''rowCount'', JNumber 2),
        (''processingTime'', JString ''7ms'')])"
    using convert_ok [OF accepted_example, of "''a,b''" "[''1,2'', ''3,4'']" plain_env example_clock "[]"]
    by (simp add: example_file_def example_lines example_cells example_duration plain_env_def
          json_of_object_plain plain_key_a plain_key_b)
  have m: "Respond 200 (JObject
       [(''data'', JArray [JObject [(''a'', JString ''1''), (''b'', JString ''2'')],
                           JObject [(''a'', JString ''3''), (''b'', JString ''4'')]]),
        (''rowCount'', JNumber 2),
        (''processingTime'', JString ''7ms'')])
     \<in> set (snd (post_convert plain_env example_clock (Some example_file) []))"
    by (rule response_in_set [OF r])
  have t: "endTime example_clock - startTime example_clock = 7"
    by (simp add: example_clock_def)
  from success_body [OF m] obtain u where
    "u = number_string (endTime example_clock - startTime example_clock)"
    "is_decimal_integer u" "integer_value u = endTime example_clock - startTime example_clock"
    by blast
  moreover have "number_string 7 = ''7''"
    using example_duration by (simp only: t)
  ultimately have "is_decimal_integer ''7''" "integer_value ''7'' = 7"
    by (simp_all add: t)
  with m t show ?thesis by blast
qed

subsection \<open>Empty and header-only uploads\<close>

text \<open>
  C10. An uploaded file that is empty, or that holds a header row and no data row, is no
  error: the response has status 200, \<open>data\<close> is the empty array and \<open>rowCount\<close> is 0.
\<close>

theorem empty_or_header_only:
  assumes "accepted f"
    and "content f = [] \<or> (\<exists>h. split_lines (content f) = [h])"
  shows "response (snd (post_convert e clk (Some f) d)) =
     Some (200, JObject
        [(''data'', JArray []),
         (''rowCount'', JNumber 0),
         (''processingTime'', JString (number_string (endTime clk - startTime clk) @ ''ms''))])"
proof (cases "content f = []")
  case True
  have "csv_parser (parser_honours_maxRows e) MAX_ROWS (content f) = map Data [] @ [End]"
    by (simp add: True csv_parser_empty)
  then show ?thesis
    unfolding post_convert_accepted [OF assms(1)]
    by (simp only: pump_end) (simp add: response_on_end)
next
  case False
  with assms(2) obtain h where h: "split_lines (content f) = h # []" by auto
  have m: "list_all (\<lambda>l. length (split_cells l) = length (split_cells h)) []" by simp
  show ?thesis
    using convert_ok [OF assms(1) h m, of e clk d] by simp
qed

text \<open>C10 at a header-only upload and at an empty upload.\<close>

theorem empty_or_header_only_witness:
  "accepted header_only_file \<and> split_lines (content header_only_file) = [''a,b''] \<and>
   response (snd (post_convert plain_env example_clock (Some header_only_file) [])) =
     Some (200, JObject [(''data'', JArray []), (''rowCount'', JNumber 0), (''processingTime'', JString ''7ms'')])
   \<and> accepted empty_file \<and> content empty_file = [] \<and>
   response (snd (post_convert plain_env example_clock (Some empty_file) [])) =
     Some (200, JObject [(''data'', JArray []), (''rowCount'', JNumber 0), (''processingTime'', JString ''7ms'')])"
proof -
  have c: "content empty_file = []" by (simp add: empty_file_def)
  have 1: "response (snd (post_convert plain_env example_clock (Some header_only_file) [])) =
     Some (200, JObject [(''data'', JArray []), (''rowCount'', JNumber 0), (''processingTime'', JString ''7ms'')])"
    using empty_or_header_only [OF accepted_header_only, of plain_env example_clock "[]"] header_only_lines
    by (simp add: example_duration)
  have 2: "response (snd (post_convert plain_env example_clock (Some empty_file) [])) =
     Some (200, JObject [(''data'', JArray []), (''rowCount'', JNumber 0), (''processingTime'', JString ''7ms'')])"
    using empty_or_header_only [OF accepted_empty, of plain_env example_clock "[]"] c
    by (simp add: example_duration)
  from 1 2 c show ?thesis
    by (simp add: accepted_header_only accepted_empty header_only_lines)
qed

end
